theory Spec2Isabelle
  imports Complex_Main "HOL-Library.AList"
begin

section \<open>JavaScript values\<close>

text \<open>
  A JavaScript number is an IEEE double. The model keeps the three special values apart
  and reads every finite double as the real number it denotes (\<open>+0\<close> and \<open>-0\<close> are the
  same real, as they are for \<open>===\<close> and for the comparisons). The counts of the
  script are integers, and the difference of two \<open>llr\<close> that its comparator takes is exact
  in the model (only its sign is used); the products and quotients of the page are rounded
  to the nearest double.
\<close>

datatype jsnum = NaN | NegInf | Fin real | PosInf

text \<open>Strict equality \<open>===\<close> on numbers: \<open>NaN\<close> is equal to nothing, itself included.\<close>

fun num_strict_eq :: "jsnum \<Rightarrow> jsnum \<Rightarrow> bool" where
  "num_strict_eq NaN b = False"
| "num_strict_eq a NaN = False"
| "num_strict_eq a b = (a = b)"

text \<open>
  A field that holds a number or \<open>null\<close> is a \<open>jsnum option\<close>, \<open>None\<close> for \<open>null\<close>.
  \<open>a !== b\<close> on two such fields: \<open>null === null\<close>, a number is never \<open>null\<close>.
\<close>

fun strict_neq :: "jsnum option \<Rightarrow> jsnum option \<Rightarrow> bool" where
  "strict_neq None None = False"
| "strict_neq (Some a) (Some b) = (\<not> num_strict_eq a b)"
| "strict_neq a b = True"

section \<open>The data of fetch_and_process.js\<close>

text \<open>
  One element of \<open>processedTests\<close>, as \<open>processRawData\<close> pushes it. The field \<open>id\<close> is
  \<open>test_id\<close> here. Integers are unbounded: the loss of precision of a double beyond
  \<open>2^53\<close> is not modelled.
\<close>

record summary =
  test_id :: string
  username :: string
  branch :: string
  llr :: "jsnum option"
  wml :: int
  wins :: int
  losses :: int
  draws :: int
  totalGames :: int
  workers :: int
  sprtElo0 :: "jsnum option"

text \<open>One history point \<open>{time, wml, llr}\<close>, as \<open>updateHistoricalData\<close> builds it.\<close>

record point =
  p_time :: int
  p_wml :: int
  p_llr :: "jsnum option"

text \<open>
  The history object \<open>currentHistory\<close>: test id to the array of its points, oldest first.
  It is an association list in the order of the object's keys; a key is looked up with
  \<open>map_of\<close>, assigned with \<open>AList.update\<close> (a new key goes to the end) and removed
  with \<open>AList.delete\<close>. Every value of the object's own is an array, as in a history
  file that the script wrote, and an array is truthy.
  (An object enumerates integer-like keys first; the order of the keys matters to no
  property below.)
\<close>

type_synonym store = "(string \<times> point list) list"

definition MAX_HISTORY_POINTS :: nat where
  "MAX_HISTORY_POINTS = 864"

section \<open>updateHistoricalData\<close>

datatype error = ENOENT | IOError | NetworkError | HttpError nat | SyntaxError | TypeError

text \<open>
  The history object is a plain object, so \<open>currentHistory[id]\<close> also finds what every
  object inherits from \<open>Object.prototype\<close>: for these names, when the object has no own
  entry, the value is a function (for \<open>__proto__\<close> the prototype object itself), which is
  truthy and is no array.
\<close>

definition inherited_names :: "string list" where
  "inherited_names =
     [''constructor'', ''__defineGetter__'', ''__defineSetter__'', ''hasOwnProperty'',
      ''__lookupGetter__'', ''__lookupSetter__'', ''isPrototypeOf'', ''propertyIsEnumerable'',
      ''toString'', ''valueOf'', ''__proto__'', ''toLocaleString'']"

datatype slot = Array "point list" | Inherited | Absent

definition get_slot :: "store \<Rightarrow> string \<Rightarrow> slot" where
  "get_slot h k =
     (case map_of h k of
        Some ps \<Rightarrow> Array ps
      | None \<Rightarrow> if k \<in> set inherited_names then Inherited else Absent)"

definition newPoint :: "int \<Rightarrow> summary \<Rightarrow> point" where
  "newPoint now test = \<lparr>p_time = now div 1000, p_wml = wml test, p_llr = llr test\<rparr>"

text \<open>The condition of the \<open>if\<close> on an array: it is empty, or its last point differs.\<close>

definition differs :: "point list \<Rightarrow> point \<Rightarrow> bool" where
  "differs testHistory np =
     (testHistory = [] \<or> p_wml (last testHistory) \<noteq> p_wml np
        \<or> strict_neq (p_llr (last testHistory)) (p_llr np))"

definition push_capped :: "point list \<Rightarrow> point \<Rightarrow> point list" where
  "push_capped testHistory np =
     (let pushed = testHistory @ [np]
      in if length pushed > MAX_HISTORY_POINTS then tl pushed else pushed)"

text \<open>
  The second half of the callback, for a test whose \<open>testHistory\<close> is an array of the
  object: \<open>testHistory\<close> aliases that array, so \<open>push\<close> and \<open>shift\<close> are written back
  with \<open>AList.update\<close>.
\<close>

definition add_point :: "int \<Rightarrow> summary \<Rightarrow> point list \<Rightarrow> store \<times> bool \<Rightarrow> store \<times> bool" where
  "add_point now test testHistory s =
     (if differs testHistory (newPoint now test)
      then (AList.update (test_id test) (push_capped testHistory (newPoint now test)) (fst s),
            True)
      else s)"

text \<open>
  The body of the \<open>forEach\<close> callback for one test. \<open>now\<close> is what \<open>Date.now()\<close>
  returns in this iteration (milliseconds); the state is the history object and the flag
  \<open>historyChanged\<close>. For a missing entry the empty array is created. For an inherited
  value nothing is created, \<open>lastEntry\<close> is \<open>null\<close> or \<open>undefined\<close> (neither a function
  nor the prototype has the index read), and \<open>testHistory.push\<close> is not a function: the call
  throws a \<open>TypeError\<close>.
\<close>

definition forEach_body :: "int \<Rightarrow> summary \<Rightarrow> store \<times> bool \<Rightarrow> error + store \<times> bool" where
  "forEach_body now test s =
     (case get_slot (fst s) (test_id test) of
        Absent \<Rightarrow> Inr (add_point now test [] (AList.update (test_id test) [] (fst s), True))
      | Array testHistory \<Rightarrow> Inr (add_point now test testHistory s)
      | Inherited \<Rightarrow> Inl TypeError)"

text \<open>
  \<open>latestProcessedTests.forEach\<close>: \<open>clock k\<close> is the reading of \<open>Date.now()\<close> in the
  \<open>k\<close>-th iteration still to come. An exception ends the loop.
\<close>

fun forEach_tests ::
  "(nat \<Rightarrow> int) \<Rightarrow> summary list \<Rightarrow> store \<times> bool \<Rightarrow> error + store \<times> bool" where
  "forEach_tests clock [] s = Inr s"
| "forEach_tests clock (test # tests) s =
     (case forEach_body (clock 0) test s of
        Inl e \<Rightarrow> Inl e
      | Inr s' \<Rightarrow> forEach_tests (\<lambda>k. clock (Suc k)) tests s')"

text \<open>
  The cleanup loop \<open>for (const testId in currentHistory)\<close>: the keys are those the
  object has when the loop starts; a key that is not in \<open>activeTestIds\<close> is deleted.
\<close>

definition cleanup_body :: "string list \<Rightarrow> string \<Rightarrow> store \<times> bool \<Rightarrow> store \<times> bool" where
  "cleanup_body activeTestIds testId s =
     (if testId \<in> set activeTestIds then s else (AList.delete testId (fst s), True))"

definition updateHistoricalData ::
  "(nat \<Rightarrow> int) \<Rightarrow> store \<Rightarrow> summary list \<Rightarrow> error + store \<times> bool" where
  "updateHistoricalData clock currentHistory latestProcessedTests =
     (let activeTestIds = map test_id latestProcessedTests
      in case forEach_tests clock latestProcessedTests (currentHistory, False) of
           Inl e \<Rightarrow> Inl e
         | Inr s \<Rightarrow> Inr (fold (cleanup_body activeTestIds) (map fst (fst s)) s))"

section \<open>processRawData\<close>

text \<open>
  A value found in a field of the API's answer whose type the script does not rely on:
  the script coerces it with \<open>parseInt\<close> or \<open>parseFloat\<close>. \<open>JUndefined\<close> is a
  missing property. (An array or an object in such a field is not modelled.)
\<close>

datatype jsval = JUndefined | JNull | JBool bool | JNumber jsnum | JString string

text \<open>
  The raw record of one test, with the properties that \<open>processRawData\<close> reads. A
  nested object is an \<open>option\<close>: \<open>None\<close> stands for a missing property and for any
  value that is not an object, on which every property read below gives \<open>undefined\<close>.
  \<open>_id\<close>, \<open>username\<close> and \<open>new_tag\<close> are passed through by the script; they are
  taken to be strings (\<open>None\<close>: \<open>null\<close> or missing).
\<close>

record raw_sprt =
  sprt_llr :: jsval
  sprt_elo0 :: jsval

record raw_args =
  args_sprt :: "raw_sprt option"
  args_username :: "string option"
  args_new_tag :: "string option"

record raw_results =
  results_wins :: jsval
  results_losses :: jsval
  results_draws :: jsval

record raw_test =
  raw_id :: string
  raw_args :: "raw_args option"
  raw_results :: "raw_results option"
  raw_workers :: jsval

text \<open>
  \<open>rawData\<close>: the keys of the answer in the order \<open>for ... in\<close> visits them, each with
  its value; \<open>None\<close> is a \<open>null\<close> value, on which \<open>test.args\<close> throws.
\<close>

type_synonym rawData = "(string \<times> raw_test option) list"

subsection \<open>parseInt and parseFloat\<close>

text \<open>
  Both built-ins turn their argument into a string, skip leading white space and read the
  longest prefix that is a number; \<open>NaN\<close> when there is none. A \<open>char\<close> is a code
  unit below 256, so the white space is the ASCII one and the no-break space.
\<close>

definition is_ws :: "char \<Rightarrow> bool" where
  "is_ws c = (of_char c \<in> {9, 10, 11, 12, 13, 32, 160 :: nat})"

definition is_digit :: "char \<Rightarrow> bool" where
  "is_digit c = (48 \<le> (of_char c :: nat) \<and> (of_char c :: nat) \<le> 57)"

definition is_hex_digit :: "char \<Rightarrow> bool" where
  "is_hex_digit c =
     (is_digit c \<or> (65 \<le> (of_char c :: nat) \<and> (of_char c :: nat) \<le> 70)
        \<or> (97 \<le> (of_char c :: nat) \<and> (of_char c :: nat) \<le> 102))"

definition digit_val :: "char \<Rightarrow> nat" where
  "digit_val c =
     (if is_digit c then of_char c - 48
      else if of_char c \<le> (70 :: nat) then of_char c - 55 else of_char c - 87)"

definition digits_val :: "nat \<Rightarrow> string \<Rightarrow> nat" where
  "digits_val radix ds = foldl (\<lambda>a c. radix * a + digit_val c) 0 ds"

text \<open>An optional sign: the sign as \<open>1\<close> or \<open>-1\<close>, and the rest of the string.\<close>

fun read_sign :: "string \<Rightarrow> int \<times> string" where
  "read_sign [] = (1, [])"
| "read_sign (c # cs) =
     (if c = CHR ''-'' then (-1, cs) else if c = CHR ''+'' then (1, cs) else (1, c # cs))"

text \<open>The exponent part \<open>e\<close>, optional sign, digits; \<open>0\<close> when the string has none.\<close>

fun read_exponent :: "string \<Rightarrow> int" where
  "read_exponent [] = 0"
| "read_exponent (c # cs) =
     (if c = CHR ''e'' \<or> c = CHR ''E''
      then (let (sg, ds) = read_sign cs
            in if takeWhile is_digit ds = [] then 0
               else sg * int (digits_val 10 (takeWhile is_digit ds)))
      else 0)"

definition parseFloat_string :: "string \<Rightarrow> jsnum" where
  "parseFloat_string s =
     (let (sg, u) = read_sign (dropWhile is_ws s)
      in if take 8 u = ''Infinity'' then (if sg < 0 then NegInf else PosInf)
         else
           (let ip = takeWhile is_digit u;
                r1 = dropWhile is_digit u;
                has_dot = (r1 \<noteq> [] \<and> hd r1 = CHR ''.'');
                fp = (if has_dot then takeWhile is_digit (tl r1) else []);
                r2 = (if has_dot then dropWhile is_digit (tl r1) else r1)
            in if ip = [] \<and> fp = [] then NaN
               else Fin (real_of_int sg
                         * (real (digits_val 10 ip) + real (digits_val 10 fp) / 10 ^ length fp)
                         * 10 powi read_exponent r2)))"

definition parseInt_string :: "string \<Rightarrow> int option" where
  "parseInt_string s =
     (let (sg, u) = read_sign (dropWhile is_ws s);
          hex = (take 2 u = ''0x'' \<or> take 2 u = ''0X'');
          ds = (if hex then takeWhile is_hex_digit (drop 2 u) else takeWhile is_digit u)
      in if ds = [] then None
         else Some (sg * int (digits_val (if hex then 16 else 10) ds)))"

text \<open>
  \<open>parseFloat\<close>: a number comes back as it is (its string form reads back as the same
  double); \<open>undefined\<close>, \<open>null\<close>, \<open>true\<close> and \<open>false\<close> have no numeric prefix.
\<close>

fun parseFloat :: "jsval \<Rightarrow> jsnum" where
  "parseFloat (JNumber n) = n"
| "parseFloat (JString s) = parseFloat_string s"
| "parseFloat v = NaN"

text \<open>
  \<open>parseInt\<close>, \<open>None\<close> for \<open>NaN\<close>. A finite number is truncated towards zero: this
  is JavaScript's answer for \<open>0\<close> and for \<open>10^-6 \<le> |r| < 10^21\<close>, where the string
  form of the number is positional; the exponent form of the other numbers is not
  modelled.
\<close>

fun parseInt :: "jsval \<Rightarrow> int option" where
  "parseInt (JNumber (Fin r)) = Some (if r < 0 then - \<lfloor>- r\<rfloor> else \<lfloor>r\<rfloor>)"
| "parseInt (JString s) = parseInt_string s"
| "parseInt v = None"

text \<open>\<open>parseInt(x) || 0\<close>: \<open>NaN\<close> and \<open>0\<close> are falsy.\<close>

definition or_zero :: "int option \<Rightarrow> int" where
  "or_zero v = (case v of None \<Rightarrow> 0 | Some i \<Rightarrow> i)"

subsection \<open>One record\<close>

text \<open>\<open>test.args || {}\<close>: the empty object has none of the properties.\<close>

definition empty_args :: raw_args where
  "empty_args = \<lparr>args_sprt = None, args_username = None, args_new_tag = None\<rparr>"

definition results_field :: "raw_test \<Rightarrow> (raw_results \<Rightarrow> jsval) \<Rightarrow> jsval" where
  "results_field test field = (case raw_results test of None \<Rightarrow> JUndefined | Some r \<Rightarrow> field r)"

definition processTest :: "raw_test \<Rightarrow> summary" where
  "processTest test =
     (let args = (case raw_args test of None \<Rightarrow> empty_args | Some a \<Rightarrow> a);
          llr0 = (case args_sprt args of None \<Rightarrow> JUndefined | Some sp \<Rightarrow> sprt_llr sp);
          llr1 = (if llr0 = JUndefined \<or> llr0 = JNull then JNull else llr0);
          wins1 = or_zero (parseInt (results_field test results_wins));
          losses1 = or_zero (parseInt (results_field test results_losses));
          draws1 = or_zero (parseInt (results_field test results_draws));
          totalGames1 = wins1 + losses1 + draws1;
          workers1 = or_zero (parseInt (raw_workers test));
          sprtElo01 =
            (case args_sprt args of
               None \<Rightarrow> None
             | Some sp \<Rightarrow>
                 if sprt_elo0 sp \<noteq> JUndefined
                 then (if parseFloat (sprt_elo0 sp) = NaN then None
                       else Some (parseFloat (sprt_elo0 sp)))
                 else None)
      in \<lparr>test_id = raw_id test,
          username = (case args_username args of None \<Rightarrow> ''N/A'' | Some u \<Rightarrow> u),
          branch = (case args_new_tag args of None \<Rightarrow> ''N/A'' | Some b \<Rightarrow> b),
          llr = (if llr1 \<noteq> JNull then Some (parseFloat llr1) else None),
          wml = wins1 - losses1,
          wins = wins1,
          losses = losses1,
          draws = draws1,
          totalGames = totalGames1,
          workers = workers1,
          sprtElo0 = sprtElo01\<rparr>)"

subsection \<open>The sort\<close>

text \<open>Subtraction of doubles, as far as its sign goes.\<close>

fun js_minus :: "jsnum \<Rightarrow> jsnum \<Rightarrow> jsnum" where
  "js_minus NaN b = NaN"
| "js_minus a NaN = NaN"
| "js_minus (Fin a) (Fin b) = Fin (a - b)"
| "js_minus PosInf PosInf = NaN"
| "js_minus NegInf NegInf = NaN"
| "js_minus PosInf b = PosInf"
| "js_minus NegInf b = NegInf"
| "js_minus a PosInf = NegInf"
| "js_minus a NegInf = PosInf"

text \<open>The comparator given to \<open>sort\<close>.\<close>

definition compareFn :: "summary \<Rightarrow> summary \<Rightarrow> jsnum" where
  "compareFn a b =
     (if llr a = None \<and> llr b = None then Fin 0
      else if llr a = None then Fin 1
      else if llr b = None then Fin (-1)
      else js_minus (the (llr b)) (the (llr a)))"

text \<open>
  \<open>Array.prototype.sort\<close> takes a comparator's \<open>NaN\<close> for \<open>0\<close> and is stable: \<open>x\<close>
  goes behind \<open>y\<close> only when the comparator is positive on them. With a consistent
  comparator every stable sort gives the same array, so the sort is modelled as an
  insertion sort; with an inconsistent one ECMAScript leaves the order to the engine.
\<close>

fun positive :: "jsnum \<Rightarrow> bool" where
  "positive PosInf = True"
| "positive (Fin r) = (0 < r)"
| "positive v = False"

fun sort_insert :: "('a \<Rightarrow> 'a \<Rightarrow> jsnum) \<Rightarrow> 'a \<Rightarrow> 'a list \<Rightarrow> 'a list" where
  "sort_insert cmp x [] = [x]"
| "sort_insert cmp x (y # ys) =
     (if positive (cmp x y) then y # sort_insert cmp x ys else x # y # ys)"

definition js_sort :: "('a \<Rightarrow> 'a \<Rightarrow> jsnum) \<Rightarrow> 'a list \<Rightarrow> 'a list" where
  "js_sort cmp xs = foldr (sort_insert cmp) xs []"

text \<open>The loop over the keys of \<open>rawData\<close>, pushing to \<open>processedTests\<close>.\<close>

fun process_loop :: "rawData \<Rightarrow> summary list \<Rightarrow> error + summary list" where
  "process_loop [] processedTests = Inr processedTests"
| "process_loop ((key, None) # rest) processedTests = Inl TypeError"
| "process_loop ((key, Some test) # rest) processedTests =
     process_loop rest (processedTests @ [processTest test])"

definition processRawData :: "rawData \<Rightarrow> error + summary list" where
  "processRawData rawData =
     (case process_loop rawData [] of
        Inl e \<Rightarrow> Inl e
      | Inr processedTests \<Rightarrow> Inr (js_sort compareFn processedTests))"

section \<open>main\<close>

text \<open>
  \<open>JSON.stringify\<close> writes \<open>NaN\<close> and the infinities as \<open>null\<close>; every other value of
  the two files reads back as it was written.
\<close>

fun json_num :: "jsnum option \<Rightarrow> jsnum option" where
  "json_num (Some (Fin r)) = Some (Fin r)"
| "json_num v = None"

definition json_point :: "point \<Rightarrow> point" where
  "json_point p = p\<lparr>p_llr := json_num (p_llr p)\<rparr>"

definition json_store :: "store \<Rightarrow> store" where
  "json_store h = map (\<lambda>q. (fst q, map json_point (snd q))) h"

definition json_summary :: "summary \<Rightarrow> summary" where
  "json_summary t = t\<lparr>llr := json_num (llr t), sprtElo0 := json_num (sprtElo0 t)\<rparr>"

datatype path = LATEST_DATA_PATH | HISTORY_DATA_PATH

datatype content = LatestData "summary list" | HistoryData store

fun stringify :: "content \<Rightarrow> content" where
  "stringify (LatestData tests) = LatestData (map json_summary tests)"
| "stringify (HistoryData h) = HistoryData (json_store h)"

text \<open>The answer of \<open>fetch\<close>: \<open>response.ok\<close>, the status, and what \<open>response.json()\<close> gives.\<close>

record response =
  resp_ok :: bool
  resp_status :: nat
  resp_json :: "error + rawData"

text \<open>
  What one run of the script meets: the outcome of reading and parsing the history file,
  the outcome of \<open>fetch\<close>, whether \<open>mkdir\<close> or \<open>writeFile\<close> throws for a path, and the
  readings of \<open>Date.now()\<close>.
\<close>

record world =
  history_file :: "error + store"
  api :: "error + response"
  write_fails :: "path \<Rightarrow> bool"
  date_now :: "nat \<Rightarrow> int"

text \<open>What the run leaves: the exit code and the files written, in order.\<close>

record outcome =
  exit_code :: nat
  written :: "(path \<times> content) list"

definition loadJson :: "error + 'a \<Rightarrow> 'a \<Rightarrow> error + 'a" where
  "loadJson read_result defaultValue =
     (case read_result of
        Inr data \<Rightarrow> Inr data
      | Inl e \<Rightarrow> if e = ENOENT then Inr defaultValue else Inl e)"

definition saveJson ::
  "(path \<Rightarrow> bool) \<Rightarrow> path \<Rightarrow> content \<Rightarrow> (path \<times> content) list
     \<Rightarrow> error + (path \<times> content) list" where
  "saveJson fails filePath data files =
     (if fails filePath then Inl IOError else Inr (files @ [(filePath, stringify data)]))"

definition fetchFishtestData :: "error + response \<Rightarrow> error + rawData" where
  "fetchFishtestData fetched =
     (case fetched of
        Inl e \<Rightarrow> Inl e
      | Inr response \<Rightarrow>
          if \<not> resp_ok response then Inl (HttpError (resp_status response))
          else resp_json response)"

text \<open>
  \<open>main\<close>, with the handler of its rejection: any error ends the run with
  \<open>process.exit(1)\<close>; a run that reaches its end exits with \<open>0\<close>.
\<close>

definition failed :: "(path \<times> content) list \<Rightarrow> outcome" where
  "failed files = \<lparr>exit_code = 1, written = files\<rparr>"

definition main :: "world \<Rightarrow> outcome" where
  "main w =
     (case loadJson (history_file w) [] of
        Inl e \<Rightarrow> failed []
      | Inr currentHistory \<Rightarrow>
     (case fetchFishtestData (api w) of
        Inl e \<Rightarrow> failed []
      | Inr rawData \<Rightarrow>
     (case processRawData rawData of
        Inl e \<Rightarrow> failed []
      | Inr latestProcessedTests \<Rightarrow>
     (case updateHistoricalData (date_now w) currentHistory latestProcessedTests of
        Inl e \<Rightarrow> failed []
      | Inr (updatedHistory, historyChanged) \<Rightarrow>
     (case saveJson (write_fails w) LATEST_DATA_PATH (LatestData latestProcessedTests) [] of
        Inl e \<Rightarrow> failed []
      | Inr files1 \<Rightarrow>
          if historyChanged
          then (case saveJson (write_fails w) HISTORY_DATA_PATH (HistoryData updatedHistory)
                       files1 of
                  Inl e \<Rightarrow> failed files1
                | Inr files2 \<Rightarrow> \<lparr>exit_code = 0, written = files2\<rparr>)
          else \<lparr>exit_code = 0, written = files1\<rparr>)))))"

section \<open>The page script\<close>

text \<open>
  A value that the page reads from a parsed JSON object or computes from one:
  \<open>undefined\<close>, \<open>null\<close> or a number.
\<close>

datatype val = VUndefined | VNull | VNumber jsnum

text \<open>
  \<open>d.name\<close> on a history point \<open>d\<close> of \<open>historical_data.json\<close>: the object has the
  properties \<open>time\<close>, \<open>wml\<close> and \<open>llr\<close> that \<open>updateHistoricalData\<close> gave it, and
  no other.
\<close>

definition property :: "point \<Rightarrow> string \<Rightarrow> val" where
  "property d name =
     (if name = ''time'' then VNumber (Fin (real_of_int (p_time d)))
      else if name = ''wml'' then VNumber (Fin (real_of_int (p_wml d)))
      else if name = ''llr'' then (case p_llr d of None \<Rightarrow> VNull | Some n \<Rightarrow> VNumber n)
      else VUndefined)"

fun to_number :: "val \<Rightarrow> jsnum" where
  "to_number VUndefined = NaN"
| "to_number VNull = Fin 0"
| "to_number (VNumber n) = n"

subsection \<open>Multiplication of doubles\<close>

text \<open>
  The product of two doubles is the exact product rounded to the nearest double, to the
  even one of two nearest. \<open>bits n\<close> is the number of binary digits of \<open>n\<close>, and
  \<open>exponent x\<close> the \<open>e\<close> with \<open>2^e \<le> |x| < 2^(e+1)\<close>, for \<open>x\<close> other than \<open>0\<close>.
\<close>

function bits :: "int \<Rightarrow> int" where
  "bits n = (if n \<le> 0 then 0 else 1 + bits (n div 2))"
  by pat_completeness auto
termination
  by (relation "measure nat") auto

definition exponent :: "real \<Rightarrow> int" where
  "exponent x =
     (if 1 \<le> \<bar>x\<bar> then bits \<lfloor>\<bar>x\<bar>\<rfloor> - 1 else - bits (\<lceil>1 / \<bar>x\<bar>\<rceil> - 1))"

definition round_half_even :: "real \<Rightarrow> int" where
  "round_half_even r =
     (if r - real_of_int \<lfloor>r\<rfloor> < 1 / 2 then \<lfloor>r\<rfloor>
      else if 1 / 2 < r - real_of_int \<lfloor>r\<rfloor> then \<lfloor>r\<rfloor> + 1
      else if even \<lfloor>r\<rfloor> then \<lfloor>r\<rfloor> else \<lfloor>r\<rfloor> + 1)"

text \<open>
  A double has 53 significant bits and an exponent from \<open>-1022\<close> (below it the spacing
  stays \<open>2^-1074\<close>) to \<open>1023\<close>; what rounds to \<open>2^1024\<close> or beyond is an infinity.
\<close>

definition round_double :: "real \<Rightarrow> jsnum" where
  "round_double x =
     (if x = 0 then Fin 0
      else
        (let e = max (exponent x) (- 1022);
             spacing = 2 powi (e - 52);
             v = real_of_int (round_half_even (x / spacing)) * spacing
         in if 2 ^ 1024 \<le> \<bar>v\<bar> then (if 0 < x then PosInf else NegInf) else Fin v))"

definition signed_inf :: "real \<Rightarrow> jsnum" where
  "signed_inf r = (if 0 < r then PosInf else if r < 0 then NegInf else NaN)"

text \<open>\<open>a * c\<close> for a number \<open>a\<close> and a finite constant \<open>c\<close>.\<close>

fun js_times :: "jsnum \<Rightarrow> real \<Rightarrow> jsnum" where
  "js_times NaN c = NaN"
| "js_times (Fin a) c = round_double (a * c)"
| "js_times PosInf c = signed_inf c"
| "js_times NegInf c = signed_inf (- c)"

subsection \<open>The chart\<close>

datatype metric = Score | LLR

record chart_point =
  pt_x :: jsnum
  pt_y :: val

record y_options =
  y_min :: "int option"
  y_max :: "int option"
  y_beginAtZero :: bool

text \<open>
  The chart object, as far as the script sets it: the labels, the two datasets (\<open>Score\<close>
  is \<open>datasets[0]\<close>, \<open>LLR\<close> is \<open>datasets[1]\<close>) with their \<open>hidden\<close> flags, and the
  options of the value axis.
\<close>

record chart =
  chart_labels :: "string list"
  score_data :: "chart_point list"
  score_hidden :: bool
  llr_data :: "chart_point list"
  llr_hidden :: bool
  y_scale :: y_options

text \<open>
  The variables of the page script and what it sets in the document; \<open>scrolled\<close> and
  \<open>prevented\<close> count the calls of \<open>scrollIntoView\<close> and \<open>preventDefault\<close>.
\<close>

record page =
  allTestsData :: "summary list"
  historicalData :: store
  currentChart :: "chart option"
  currentTrackingTestId :: "string option"
  currentTrackingBranchName :: "string option"
  currentVisibleMetric :: metric
  chartTitle :: string
  chartContainer_shown :: bool
  testEndedMessage_shown :: bool
  scrolled :: nat
  prevented :: nat

definition isActive :: "page \<Rightarrow> string \<Rightarrow> bool" where
  "isActive st testId = (\<exists>test \<in> set (allTestsData st). test_id test = testId)"

definition toggleChartMetric :: "metric \<Rightarrow> page \<Rightarrow> page" where
  "toggleChartMetric metricToShow st =
     (case currentChart st of
        None \<Rightarrow> st
      | Some c \<Rightarrow>
          (let isLLR = (metricToShow = LLR)
           in st\<lparr>currentVisibleMetric := metricToShow,
                 currentChart := Some (c\<lparr>score_hidden := isLLR, llr_hidden := \<not> isLLR,
                   y_scale := (if isLLR
                               then \<lparr>y_min = Some (- 3), y_max = Some 3, y_beginAtZero = False\<rparr>
                               else \<lparr>y_min = None, y_max = None, y_beginAtZero = True\<rparr>)\<rparr>)\<rparr>))"

definition scoreData :: "point list \<Rightarrow> chart_point list" where
  "scoreData testHistory =
     map (\<lambda>d. \<lparr>pt_x = js_times (to_number (property d ''time'')) 1000, pt_y = property d ''score''\<rparr>)
       testHistory"

definition llrData :: "point list \<Rightarrow> chart_point list" where
  "llrData testHistory =
     map (\<lambda>d. \<lparr>pt_x = js_times (to_number (property d ''time'')) 1000,
               pt_y = (if property d ''llr'' \<noteq> VNull then property d ''llr'' else VNumber NaN)\<rparr>)
       testHistory"

text \<open>
  \<open>!currentTrackingTestId\<close> holds for \<open>null\<close> and for the empty string. (The lookup
  \<open>historicalData[id]\<close> is modelled for own entries and missing ones; an id that names
  an inherited property and has no entry is not modelled on the page.)
\<close>

definition updateChartData :: "page \<Rightarrow> page" where
  "updateChartData st =
     (case (currentChart st, currentTrackingTestId st) of
        (Some c, Some testId) \<Rightarrow>
          if testId = [] then st
          else
            (let testHistory = (case map_of (historicalData st) testId of
                                  None \<Rightarrow> [] | Some ps \<Rightarrow> ps)
             in if testHistory = []
                then st\<lparr>currentChart :=
                           Some (c\<lparr>chart_labels := [], score_data := [], llr_data := []\<rparr>)\<rparr>
                else st\<lparr>currentChart :=
                           Some (c\<lparr>score_data := scoreData testHistory,
                                   llr_data := llrData testHistory\<rparr>),
                        testEndedMessage_shown := \<not> isActive st testId\<rparr>)
      | _ \<Rightarrow> st)"

definition initializeChart :: "string \<Rightarrow> string \<Rightarrow> page \<Rightarrow> page" where
  "initializeChart testId branchName st =
     (let initialYAxisOptions =
            (if currentVisibleMetric st = LLR
             then \<lparr>y_min = Some (- 3), y_max = Some 3, y_beginAtZero = False\<rparr>
             else \<lparr>y_min = None, y_max = None, y_beginAtZero = True\<rparr>);
          st1 = st\<lparr>currentTrackingTestId := Some testId,
                   currentTrackingBranchName := Some branchName,
                   chartTitle := ''Progress for: '' @ branchName @ '' (ID: '' @ take 8 testId
                                   @ ''...)'',
                   chartContainer_shown := True,
                   testEndedMessage_shown := \<not> isActive st testId,
                   currentChart :=
                     Some \<lparr>chart_labels = [], score_data = [],
                           score_hidden = (currentVisibleMetric st \<noteq> Score),
                           llr_data = [], llr_hidden = (currentVisibleMetric st \<noteq> LLR),
                           y_scale = initialYAxisOptions\<rparr>\<rparr>
      in updateChartData (toggleChartMetric (currentVisibleMetric st1) st1))"

text \<open>
  A click in the table body: whether the target has the class \<open>branch-link\<close>, and the
  \<open>data-test-id\<close> and \<open>data-branch-name\<close> that \<open>renderTable\<close> put on such a link.
\<close>

record click =
  is_branch_link :: bool
  dataset_testId :: string
  dataset_branchName :: string

definition handleBranchClick :: "click \<Rightarrow> page \<Rightarrow> page" where
  "handleBranchClick event st =
     (if is_branch_link event
      then
        (let st1 = st\<lparr>prevented := prevented st + 1\<rparr>;
             testId = dataset_testId event;
             branchName = dataset_branchName event
         in if Some testId = currentTrackingTestId st1
            then st1\<lparr>scrolled := scrolled st1 + 1\<rparr>
            else
              (let st2 = initializeChart testId branchName (st1\<lparr>currentVisibleMetric := LLR\<rparr>)
               in st2\<lparr>scrolled := scrolled st2 + 1\<rparr>))
      else st)"

section \<open>Notions used in the properties\<close>

text \<open>
  The array of one test after the iteration of \<open>forEach\<close> for it, from the entry that the
  history object had for the test before (\<open>None\<close>: no entry).
\<close>

definition seq_step :: "int \<Rightarrow> summary \<Rightarrow> point list option \<Rightarrow> point list" where
  "seq_step now test entry =
     (let testHistory = (case entry of None \<Rightarrow> [] | Some ps \<Rightarrow> ps)
      in if differs testHistory (newPoint now test)
         then push_capped testHistory (newPoint now test) else testHistory)"

text \<open>The keys of the history object.\<close>

definition keys :: "store \<Rightarrow> string set" where
  "keys h = fst ` set h"

text \<open>\<open>a >= b\<close> on numbers: false as soon as one of them is \<open>NaN\<close>.\<close>

fun js_ge :: "jsnum \<Rightarrow> jsnum \<Rightarrow> bool" where
  "js_ge NaN b = False"
| "js_ge a NaN = False"
| "js_ge PosInf b = True"
| "js_ge a NegInf = True"
| "js_ge (Fin a) (Fin b) = (b \<le> a)"
| "js_ge a b = False"

text \<open>
  The order that the snapshot list is to have, on the \<open>llr\<close> of an earlier and of a later
  element: both numbers and the earlier \<open>>=\<close> the later, or a number before \<open>null\<close>, or
  both \<open>null\<close>.
\<close>

fun llr_in_order :: "jsnum option \<Rightarrow> jsnum option \<Rightarrow> bool" where
  "llr_in_order (Some a) (Some b) = js_ge a b"
| "llr_in_order (Some a) None = True"
| "llr_in_order None None = True"
| "llr_in_order None (Some b) = False"

definition sorted_by_llr :: "summary list \<Rightarrow> bool" where
  "sorted_by_llr tests = sorted_wrt (\<lambda>a b. llr_in_order (llr a) (llr b)) tests"

text \<open>The fetch fails: \<open>fetch\<close> rejects, or the response is not \<open>ok\<close> (no 2xx status).\<close>

definition fetch_fails :: "world \<Rightarrow> bool" where
  "fetch_fails w = (case api w of Inl e \<Rightarrow> True | Inr response \<Rightarrow> \<not> resp_ok response)"


section \<open>Properties of the history object\<close>

subsection \<open>One iteration\<close>

lemma forEach_body_Inl:
  "forEach_body now t s = Inl e \<Longrightarrow>
   e = TypeError \<and> test_id t \<in> set inherited_names \<and> map_of (fst s) (test_id t) = None"
  by (auto simp: forEach_body_def get_slot_def split: option.splits if_splits slot.splits)

lemma forEach_body_returns:
  "(\<exists>s'. forEach_body now t s = Inr s') \<longleftrightarrow>
   (test_id t \<in> set inherited_names \<longrightarrow> map_of (fst s) (test_id t) \<noteq> None)"
  by (auto simp: forEach_body_def get_slot_def split: option.splits if_splits slot.splits)

lemma forEach_body_same:
  "forEach_body now t s = Inr s' \<Longrightarrow>
   map_of (fst s') (test_id t) = Some (seq_step now t (map_of (fst s) (test_id t)))"
  by (cases s)
    (auto simp: forEach_body_def get_slot_def add_point_def seq_step_def update_conv'
          differs_def split: option.splits if_splits)

lemma forEach_body_other:
  "forEach_body now t s = Inr s' \<Longrightarrow> k \<noteq> test_id t \<Longrightarrow>
   map_of (fst s') k = map_of (fst s) k"
  by (cases s)
    (auto simp: forEach_body_def get_slot_def add_point_def update_conv'
          split: option.splits if_splits)

lemma forEach_body_entry_kept:
  assumes "forEach_body now t s = Inr s'" "k \<in> set inherited_names"
  shows "map_of (fst s') k \<noteq> None \<longleftrightarrow> map_of (fst s) k \<noteq> None"
proof (cases "k = test_id t")
  case True
  have "map_of (fst s) k \<noteq> None"
    using assms True forEach_body_returns[of now t s] by auto
  moreover have "map_of (fst s') k \<noteq> None"
    using forEach_body_same[OF assms(1)] True by simp
  ultimately show ?thesis by simp
next
  case False
  then show ?thesis using forEach_body_other[OF assms(1)] by simp
qed

subsection \<open>The loop over the tests\<close>

lemma forEach_tests_Inl: "forEach_tests clk ts s = Inl e \<Longrightarrow> e = TypeError"
proof (induction ts arbitrary: clk s)
  case Nil
  then show ?case by simp
next
  case (Cons t ts)
  show ?case
  proof (cases "forEach_body (clk 0) t s")
    case (Inl e')
    then show ?thesis using Cons.prems forEach_body_Inl by fastforce
  next
    case (Inr s')
    then show ?thesis using Cons by simp
  qed
qed

lemma forEach_tests_returns:
  "(\<exists>s'. forEach_tests clk ts s = Inr s') \<longleftrightarrow>
   (\<forall>t\<in>set ts. test_id t \<in> set inherited_names \<longrightarrow> map_of (fst s) (test_id t) \<noteq> None)"
proof (induction ts arbitrary: clk s)
  case Nil
  then show ?case by simp
next
  case (Cons t ts)
  show ?case
  proof (cases "forEach_body (clk 0) t s")
    case (Inl e)
    then show ?thesis using forEach_body_Inl[OF Inl] by auto
  next
    case (Inr s1)
    have head: "test_id t \<in> set inherited_names \<longrightarrow> map_of (fst s) (test_id t) \<noteq> None"
      using Inr forEach_body_returns[of "clk 0" t s] by auto
    have "(\<forall>u\<in>set ts. test_id u \<in> set inherited_names \<longrightarrow> map_of (fst s1) (test_id u) \<noteq> None)
        \<longleftrightarrow> (\<forall>u\<in>set ts. test_id u \<in> set inherited_names \<longrightarrow> map_of (fst s) (test_id u) \<noteq> None)"
      using forEach_body_entry_kept[OF Inr] by blast
    then show ?thesis using Inr head Cons.IH[of "\<lambda>k. clk (Suc k)" s1] by simp
  qed
qed

lemma forEach_tests_other:
  "forEach_tests clk ts s = Inr s' \<Longrightarrow> k \<notin> test_id ` set ts \<Longrightarrow>
   map_of (fst s') k = map_of (fst s) k"
proof (induction ts arbitrary: clk s)
  case Nil
  then show ?case by simp
next
  case (Cons t ts)
  obtain s1 where s1: "forEach_body (clk 0) t s = Inr s1"
      "forEach_tests (\<lambda>k. clk (Suc k)) ts s1 = Inr s'"
    using Cons.prems(1) by (auto split: sum.splits)
  have "map_of (fst s') k = map_of (fst s1) k" using Cons.IH[OF s1(2)] Cons.prems(2) by simp
  also have "\<dots> = map_of (fst s) k" using forEach_body_other[OF s1(1)] Cons.prems(2) by simp
  finally show ?case .
qed

lemma forEach_tests_nth:
  "forEach_tests clk ts s = Inr s' \<Longrightarrow> distinct (map test_id ts) \<Longrightarrow> i < length ts \<Longrightarrow>
   map_of (fst s') (test_id (ts ! i)) =
     Some (seq_step (clk i) (ts ! i) (map_of (fst s) (test_id (ts ! i))))"
proof (induction ts arbitrary: clk s i)
  case Nil
  then show ?case by simp
next
  case (Cons t ts)
  obtain s1 where s1: "forEach_body (clk 0) t s = Inr s1"
      "forEach_tests (\<lambda>k. clk (Suc k)) ts s1 = Inr s'"
    using Cons.prems(1) by (auto split: sum.splits)
  have nin: "test_id t \<notin> test_id ` set ts" using Cons.prems(2) by simp
  show ?case
  proof (cases i)
    case 0
    have "map_of (fst s') (test_id t) = map_of (fst s1) (test_id t)"
      using forEach_tests_other[OF s1(2) nin] .
    then show ?thesis using 0 forEach_body_same[OF s1(1)] by simp
  next
    case (Suc j)
    have j: "j < length ts" using Cons.prems(3) Suc by simp
    have ne: "test_id (ts ! j) \<noteq> test_id t" using nin j by (metis imageI nth_mem)
    have d: "distinct (map test_id ts)" using Cons.prems(2) by simp
    show ?thesis
      using Suc Cons.IH[OF s1(2) d j] forEach_body_other[OF s1(1) ne] by simp
  qed
qed

lemma forEach_tests_entry:
  "forEach_tests clk ts s = Inr s' \<Longrightarrow> t \<in> set ts \<Longrightarrow> map_of (fst s') (test_id t) \<noteq> None"
proof (induction ts arbitrary: clk s t)
  case Nil
  then show ?case by simp
next
  case (Cons a ts)
  obtain s1 where s1: "forEach_body (clk 0) a s = Inr s1"
      "forEach_tests (\<lambda>k. clk (Suc k)) ts s1 = Inr s'"
    using Cons.prems(1) by (auto split: sum.splits)
  show ?case
  proof (cases "test_id t \<in> test_id ` set ts")
    case True
    then obtain u where "u \<in> set ts" "test_id u = test_id t" by auto
    then show ?thesis using Cons.IH[OF s1(2), of u] by simp
  next
    case False
    then have "t = a" using Cons.prems(2) by auto
    then show ?thesis
      using False forEach_tests_other[OF s1(2) False] forEach_body_same[OF s1(1)] by simp
  qed
qed

subsection \<open>The cap\<close>

lemma set_update_subset: "set (AList.update k v al) \<subseteq> insert (k, v) (set al)"
  by (induction al) auto

lemma update_all:
  assumes "\<forall>q\<in>set al. P (snd q)" "P v"
  shows "\<forall>q\<in>set (AList.update k v al). P (snd q)"
proof
  fix q assume "q \<in> set (AList.update k v al)"
  then have "q = (k, v) \<or> q \<in> set al" using set_update_subset[of k v al] by auto
  then show "P (snd q)" using assms by auto
qed

lemma push_capped_le:
  "length xs \<le> MAX_HISTORY_POINTS \<Longrightarrow> length (push_capped xs np) \<le> MAX_HISTORY_POINTS"
  by (auto simp: push_capped_def Let_def)

lemma add_point_capped:
  assumes "\<forall>q\<in>set (fst s). length (snd q) \<le> MAX_HISTORY_POINTS"
      and "length xs \<le> MAX_HISTORY_POINTS"
  shows "\<forall>q\<in>set (fst (add_point now t xs s)). length (snd q) \<le> MAX_HISTORY_POINTS"
proof (cases "differs xs (newPoint now t)")
  case True
  then have eq: "fst (add_point now t xs s) =
      AList.update (test_id t) (push_capped xs (newPoint now t)) (fst s)"
    by (simp add: add_point_def)
  show ?thesis
    unfolding eq
    by (rule update_all[where P="\<lambda>xs. length xs \<le> MAX_HISTORY_POINTS", OF assms(1)])
       (rule push_capped_le[OF assms(2)])
next
  case False
  then show ?thesis using assms(1) by (simp add: add_point_def)
qed

lemma forEach_body_capped:
  assumes "forEach_body now t s = Inr s'"
      and "\<forall>q\<in>set (fst s). length (snd q) \<le> MAX_HISTORY_POINTS"
  shows "\<forall>q\<in>set (fst s'). length (snd q) \<le> MAX_HISTORY_POINTS"
proof (cases "map_of (fst s) (test_id t)")
  case None
  then have s': "s' = add_point now t [] (AList.update (test_id t) [] (fst s), True)"
    using assms(1) by (auto simp: forEach_body_def get_slot_def split: if_splits)
  have a1: "\<forall>q\<in>set (fst (AList.update (test_id t) [] (fst s), True)).
              length (snd q) \<le> MAX_HISTORY_POINTS"
    using update_all[where P="\<lambda>xs. length xs \<le> MAX_HISTORY_POINTS" and v="[]", OF assms(2)]
    by simp
  show ?thesis unfolding s' by (rule add_point_capped[OF a1]) simp
next
  case (Some xs)
  then have s': "s' = add_point now t xs s"
    using assms(1) by (simp add: forEach_body_def get_slot_def)
  have "(test_id t, xs) \<in> set (fst s)" using Some by (rule map_of_SomeD)
  then have xs: "length xs \<le> MAX_HISTORY_POINTS" using assms(2) by force
  show ?thesis unfolding s' by (rule add_point_capped[OF assms(2) xs])
qed

lemma forEach_tests_capped:
  "forEach_tests clk ts s = Inr s' \<Longrightarrow>
   \<forall>q\<in>set (fst s). length (snd q) \<le> MAX_HISTORY_POINTS \<Longrightarrow>
   \<forall>q\<in>set (fst s'). length (snd q) \<le> MAX_HISTORY_POINTS"
proof (induction ts arbitrary: clk s)
  case Nil
  then show ?case by simp
next
  case (Cons t ts)
  obtain s1 where s1: "forEach_body (clk 0) t s = Inr s1"
      "forEach_tests (\<lambda>k. clk (Suc k)) ts s1 = Inr s'"
    using Cons.prems(1) by (auto split: sum.splits)
  show ?case by (rule Cons.IH[OF s1(2) forEach_body_capped[OF s1(1) Cons.prems(2)]])
qed

subsection \<open>The cleanup loop\<close>

lemma cleanup_fold:
  "fold (cleanup_body A) ks (h, c) =
     (filter (\<lambda>q. fst q \<in> set A \<or> fst q \<notin> set ks) h, c \<or> (\<exists>k\<in>set ks. k \<notin> set A))"
proof (induction ks arbitrary: h c)
  case Nil
  then show ?case by simp
next
  case (Cons k ks)
  show ?case
  proof (cases "k \<in> set A")
    case True
    have "filter (\<lambda>q. fst q \<in> set A \<or> fst q \<notin> set ks) h
        = filter (\<lambda>q. fst q \<in> set A \<or> fst q \<notin> set (k # ks)) h"
      using True by (intro filter_cong) auto
    then show ?thesis using True Cons.IH[of h c] by (simp add: cleanup_body_def)
  next
    case False
    have "filter (\<lambda>q. fst q \<in> set A \<or> fst q \<notin> set ks) (AList.delete k h)
        = filter (\<lambda>q. fst q \<in> set A \<or> fst q \<notin> set (k # ks)) h"
      using False by (induction h) (auto simp: AList.delete_eq)
    then show ?thesis
      using False Cons.IH[of "AList.delete k h" True] by (simp add: cleanup_body_def)
  qed
qed

subsection \<open>The whole function\<close>

lemma updateHistoricalData_Inl: "updateHistoricalData clk h ts = Inl e \<Longrightarrow> e = TypeError"
  by (auto simp: updateHistoricalData_def dest: forEach_tests_Inl split: sum.splits)

lemma updateHistoricalData_returns:
  "(\<exists>r. updateHistoricalData clk h ts = Inr r) \<longleftrightarrow>
   (\<forall>t\<in>set ts. test_id t \<in> set inherited_names \<longrightarrow> test_id t \<in> keys h)"
proof -
  have "(\<exists>r. updateHistoricalData clk h ts = Inr r)
      \<longleftrightarrow> (\<exists>s. forEach_tests clk ts (h, False) = Inr s)"
    by (auto simp: updateHistoricalData_def split: sum.splits)
  also have "\<dots> \<longleftrightarrow> (\<forall>t\<in>set ts. test_id t \<in> set inherited_names
                         \<longrightarrow> map_of (fst (h, False)) (test_id t) \<noteq> None)"
    by (rule forEach_tests_returns)
  also have "\<dots> \<longleftrightarrow> (\<forall>t\<in>set ts. test_id t \<in> set inherited_names \<longrightarrow> test_id t \<in> keys h)"
    by (simp add: keys_def map_of_eq_None_iff)
  finally show ?thesis .
qed

lemma updateHistoricalData_Inr:
  assumes "updateHistoricalData clk h ts = Inr (h', c)"
  obtains h1 c1 where "forEach_tests clk ts (h, False) = Inr (h1, c1)"
    and "h' = filter (\<lambda>q. fst q \<in> test_id ` set ts) h1"
    and "c = (c1 \<or> (\<exists>k\<in>keys h1. k \<notin> test_id ` set ts))"
proof -
  obtain h1 c1 where s: "forEach_tests clk ts (h, False) = Inr (h1, c1)"
    using assms by (auto simp: updateHistoricalData_def split: sum.splits)
  have f: "filter (\<lambda>q. fst q \<in> set (map test_id ts) \<or> fst q \<notin> set (map fst h1)) h1
      = filter (\<lambda>q. fst q \<in> test_id ` set ts) h1"
    by (rule filter_cong) auto
  have "(h', c) = fold (cleanup_body (map test_id ts)) (map fst h1) (h1, c1)"
    using assms s by (simp add: updateHistoricalData_def)
  then have "h' = filter (\<lambda>q. fst q \<in> test_id ` set ts) h1"
    and "c = (c1 \<or> (\<exists>k\<in>keys h1. k \<notin> test_id ` set ts))"
    using f by (simp_all add: cleanup_fold keys_def)
  then show ?thesis using s that by blast
qed

lemma map_of_filter_key:
  "map_of (filter (\<lambda>q. fst q \<in> A) h) k = (if k \<in> A then map_of h k else None)"
  by (induction h) auto

lemma updateHistoricalData_capped:
  assumes "updateHistoricalData clk h ts = Inr (h', c)"
      and "\<forall>q\<in>set h. length (snd q) \<le> MAX_HISTORY_POINTS"
  shows "\<forall>q\<in>set h'. length (snd q) \<le> MAX_HISTORY_POINTS"
proof -
  obtain h1 c1 where s: "forEach_tests clk ts (h, False) = Inr (h1, c1)"
    and h': "h' = filter (\<lambda>q. fst q \<in> test_id ` set ts) h1"
    using assms(1) by (rule updateHistoricalData_Inr)
  have "\<forall>q\<in>set (fst (h1, c1)). length (snd q) \<le> MAX_HISTORY_POINTS"
    using assms(2) by (intro forEach_tests_capped[OF s]) simp
  then show ?thesis using h' by simp
qed

lemma updateHistoricalData_nth:
  assumes "updateHistoricalData clk h ts = Inr (h', c)"
      and "distinct (map test_id ts)" "i < length ts"
  shows "map_of h' (test_id (ts ! i)) =
           Some (seq_step (clk i) (ts ! i) (map_of h (test_id (ts ! i))))"
proof -
  obtain h1 c1 where s: "forEach_tests clk ts (h, False) = Inr (h1, c1)"
    and h': "h' = filter (\<lambda>q. fst q \<in> test_id ` set ts) h1"
    using assms(1) by (rule updateHistoricalData_Inr)
  have "map_of h' (test_id (ts ! i)) = map_of h1 (test_id (ts ! i))"
    using assms(3) by (simp add: h' map_of_filter_key)
  then show ?thesis using forEach_tests_nth[OF s assms(2,3)] by simp
qed

lemma updateHistoricalData_keys:
  assumes "updateHistoricalData clk h ts = Inr (h', c)"
  shows "keys h' = test_id ` set ts"
proof -
  obtain h1 c1 where s: "forEach_tests clk ts (h, False) = Inr (h1, c1)"
    and h': "h' = filter (\<lambda>q. fst q \<in> test_id ` set ts) h1"
    using assms by (rule updateHistoricalData_Inr)
  show ?thesis
  proof
    show "keys h' \<subseteq> test_id ` set ts" by (auto simp: keys_def h')
  next
    show "test_id ` set ts \<subseteq> keys h'"
    proof
      fix k assume "k \<in> test_id ` set ts"
      then obtain t where t: "t \<in> set ts" "k = test_id t" by auto
      have "map_of h1 k \<noteq> None" using forEach_tests_entry[OF s t(1)] t(2) by simp
      then have "map_of h' k \<noteq> None" using t by (simp add: h' map_of_filter_key)
      then show "k \<in> keys h'" by (auto simp: keys_def map_of_eq_None_iff)
    qed
  qed
qed

lemma updateHistoricalData_absent:
  assumes "updateHistoricalData clk h ts = Inr (h', c)" "k \<notin> test_id ` set ts"
  shows "map_of h' k = None"
proof -
  have "k \<notin> keys h'" using updateHistoricalData_keys[OF assms(1)] assms(2) by simp
  then show ?thesis by (simp add: keys_def map_of_eq_None_iff)
qed


section \<open>The retention policy\<close>

lemma seq_step_full:
  "length xs = MAX_HISTORY_POINTS \<Longrightarrow> differs xs (newPoint now t) \<Longrightarrow>
   seq_step now t (Some xs) = tl xs @ [newPoint now t]"
  by (cases xs) (simp_all add: seq_step_def push_capped_def Let_def MAX_HISTORY_POINTS_def)

lemma seq_step_short:
  "length xs < MAX_HISTORY_POINTS \<Longrightarrow> differs xs (newPoint now t) \<Longrightarrow>
   seq_step now t (Some xs) = xs @ [newPoint now t]"
  by (simp add: seq_step_def push_capped_def Let_def)

text \<open>
  C1. A call of \<open>updateHistoricalData\<close> returns exactly when every id of the list that
  names an inherited property is a key of the history object; otherwise it throws a
  \<open>TypeError\<close>. When every array of the history object has at most 864 points and the call
  returns, every array of the returned object has at most 864 points, whatever the list of
  tests. And when the array of a test (whose id is in the list once) has exactly 864
  points and the new point differs from its last one, the array afterwards is the old one
  without its first point, followed by the new point; an array with fewer points is
  followed by the new point and loses none.
\<close>

theorem history_cap_kept_and_fifo:
  assumes "\<forall>q\<in>set h. length (snd q) \<le> 864"
  shows "((\<exists>r. updateHistoricalData clk h ts = Inr r) \<longleftrightarrow>
            (\<forall>t\<in>set ts. test_id t \<in> set inherited_names \<longrightarrow> test_id t \<in> keys h)) \<and>
         (\<forall>e. updateHistoricalData clk h ts = Inl e \<longrightarrow> e = TypeError) \<and>
         (\<forall>h' c. updateHistoricalData clk h ts = Inr (h', c) \<longrightarrow>
            (\<forall>q\<in>set h'. length (snd q) \<le> 864) \<and>
            (\<forall>i xs. distinct (map test_id ts) \<and> i < length ts
                \<and> map_of h (test_id (ts ! i)) = Some xs
                \<and> differs xs (newPoint (clk i) (ts ! i))
              \<longrightarrow> (length xs = 864 \<longrightarrow>
                     map_of h' (test_id (ts ! i)) = Some (tl xs @ [newPoint (clk i) (ts ! i)]))
                \<and> (length xs < 864 \<longrightarrow>
                     map_of h' (test_id (ts ! i)) = Some (xs @ [newPoint (clk i) (ts ! i)]))))"
proof (intro conjI allI impI)
  show "(\<exists>r. updateHistoricalData clk h ts = Inr r) \<longleftrightarrow>
          (\<forall>t\<in>set ts. test_id t \<in> set inherited_names \<longrightarrow> test_id t \<in> keys h)"
    by (rule updateHistoricalData_returns)
next
  fix e assume "updateHistoricalData clk h ts = Inl e"
  then show "e = TypeError" by (rule updateHistoricalData_Inl)
next
  fix h' c assume r: "updateHistoricalData clk h ts = Inr (h', c)"
  show "\<forall>q\<in>set h'. length (snd q) \<le> 864"
    using updateHistoricalData_capped[OF r] assms by (simp add: MAX_HISTORY_POINTS_def)
  fix i xs
  assume a: "distinct (map test_id ts) \<and> i < length ts
             \<and> map_of h (test_id (ts ! i)) = Some xs
             \<and> differs xs (newPoint (clk i) (ts ! i))"
  have n: "map_of h' (test_id (ts ! i)) = Some (seq_step (clk i) (ts ! i) (Some xs))"
    using updateHistoricalData_nth[OF r, of i] a by simp
  show "map_of h' (test_id (ts ! i)) = Some (tl xs @ [newPoint (clk i) (ts ! i)])"
    if "length xs = 864"
    using n a that by (simp add: seq_step_full MAX_HISTORY_POINTS_def)
  show "map_of h' (test_id (ts ! i)) = Some (xs @ [newPoint (clk i) (ts ! i)])"
    if "length xs < 864"
    using n a that by (simp add: seq_step_short MAX_HISTORY_POINTS_def)
qed

theorem history_cap_kept_and_fifo_witness:
  "list_all (\<lambda>q. length (snd q) \<le> 864)
     [(''a'', replicate 864 \<lparr>p_time = 0, p_wml = 0, p_llr = None\<rparr>)] \<and>
   (case updateHistoricalData (\<lambda>k. 5000)
           [(''a'', replicate 864 \<lparr>p_time = 0, p_wml = 0, p_llr = None\<rparr>)]
           [\<lparr>test_id = ''a'', username = ''u'', branch = ''b'', llr = None, wml = 1,
             wins = 1, losses = 0, draws = 0, totalGames = 1, workers = 1,
             sprtElo0 = None\<rparr>] of
      Inl e \<Rightarrow> None
    | Inr r \<Rightarrow> map_of (fst r) ''a'')
     = Some (replicate 863 \<lparr>p_time = 0, p_wml = 0, p_llr = None\<rparr>
             @ [\<lparr>p_time = 5, p_wml = 1, p_llr = None\<rparr>])"
proof -
  let ?p = "\<lparr>p_time = 0, p_wml = 0, p_llr = None\<rparr>"
  let ?h = "[(''a'', replicate 864 ?p)]"
  let ?t = "\<lparr>test_id = ''a'', username = ''u'', branch = ''b'', llr = None, wml = 1,
             wins = 1, losses = 0, draws = 0, totalGames = 1, workers = 1, sprtElo0 = None\<rparr>"
  have h: "\<forall>q\<in>set ?h. length (snd q) \<le> 864" by simp
  note inst = history_cap_kept_and_fifo[OF h, of "\<lambda>k. 5000" "[?t]"]
  have "\<forall>t\<in>set [?t]. test_id t \<in> set inherited_names \<longrightarrow> test_id t \<in> keys ?h"
    by (simp add: keys_def)
  then obtain h' c where r: "updateHistoricalData (\<lambda>k. 5000) ?h [?t] = Inr (h', c)"
    using inst by fastforce
  have d: "differs (replicate 864 ?p) (newPoint 5000 ?t)"
    by (simp add: differs_def newPoint_def)
  have "map_of h' (test_id ([?t] ! 0))
          = Some (tl (replicate 864 ?p) @ [newPoint ((\<lambda>k. 5000) 0) ([?t] ! 0)])"
    using inst r d by simp
  then show ?thesis using r by (simp add: newPoint_def)
qed

lemma seq_step_length:
  "MAX_HISTORY_POINTS \<le> length xs \<Longrightarrow> length (seq_step now t (Some xs)) = length xs"
  by (simp add: seq_step_def push_capped_def Let_def)

lemma forEach_body_length:
  assumes "forEach_body now t s = Inr s'"
      and "map_of (fst s) k = Some xs" "MAX_HISTORY_POINTS \<le> length xs"
  shows "\<exists>ys. map_of (fst s') k = Some ys \<and> length ys = length xs"
proof (cases "k = test_id t")
  case True
  then show ?thesis using assms forEach_body_same[OF assms(1)] by (simp add: seq_step_length)
next
  case False
  then show ?thesis using assms forEach_body_other[OF assms(1)] by simp
qed

lemma forEach_tests_length:
  "forEach_tests clk ts s = Inr s' \<Longrightarrow>
   map_of (fst s) k = Some xs \<Longrightarrow> MAX_HISTORY_POINTS \<le> length xs \<Longrightarrow>
   \<exists>ys. map_of (fst s') k = Some ys \<and> length ys = length xs"
proof (induction ts arbitrary: clk s xs)
  case Nil
  then show ?case by simp
next
  case (Cons t ts)
  obtain s1 where s1: "forEach_body (clk 0) t s = Inr s1"
      "forEach_tests (\<lambda>k. clk (Suc k)) ts s1 = Inr s'"
    using Cons.prems(1) by (auto split: sum.splits)
  obtain ys where ys: "map_of (fst s1) k = Some ys" "length ys = length xs"
    using forEach_body_length[OF s1(1) Cons.prems(2,3)] by blast
  show ?case using Cons.IH[OF s1(2) ys(1)] ys(2) Cons.prems(3) by simp
qed

text \<open>
  C10. \<open>updateHistoricalData\<close> (which returns exactly when every id of the list that names
  an inherited property is a key of the history object, and throws a \<open>TypeError\<close>
  otherwise) keeps the cap of 864 points when the history object respects it, and does not
  establish it: the array of an active test that comes in with more than 864 points goes
  out with the same number of points. When the id is in the list once, the array is
  unchanged if the new point does not differ from its last one, and otherwise it has lost
  its first point and gained the new one.
\<close>

theorem cap_kept_not_established:
  "((\<exists>r. updateHistoricalData clk h ts = Inr r) \<longleftrightarrow>
      (\<forall>t\<in>set ts. test_id t \<in> set inherited_names \<longrightarrow> test_id t \<in> keys h)) \<and>
   (\<forall>e. updateHistoricalData clk h ts = Inl e \<longrightarrow> e = TypeError) \<and>
   (\<forall>h' c. updateHistoricalData clk h ts = Inr (h', c) \<longrightarrow>
      ((\<forall>q\<in>set h. length (snd q) \<le> 864) \<longrightarrow> (\<forall>q\<in>set h'. length (snd q) \<le> 864)) \<and>
      (\<forall>k xs. map_of h k = Some xs \<and> 864 < length xs \<and> k \<in> test_id ` set ts
         \<longrightarrow> (\<exists>ys. map_of h' k = Some ys \<and> length ys = length xs \<and> 864 < length ys
                \<and> (\<forall>i. distinct (map test_id ts) \<and> i < length ts \<and> test_id (ts ! i) = k
                      \<longrightarrow> ys = (if differs xs (newPoint (clk i) (ts ! i))
                                then tl xs @ [newPoint (clk i) (ts ! i)] else xs)))))"
proof (intro conjI allI impI)
  show "(\<exists>r. updateHistoricalData clk h ts = Inr r) \<longleftrightarrow>
          (\<forall>t\<in>set ts. test_id t \<in> set inherited_names \<longrightarrow> test_id t \<in> keys h)"
    by (rule updateHistoricalData_returns)
next
  fix e assume "updateHistoricalData clk h ts = Inl e"
  then show "e = TypeError" by (rule updateHistoricalData_Inl)
next
  fix h' c
  assume r: "updateHistoricalData clk h ts = Inr (h', c)"
    and "\<forall>q\<in>set h. length (snd q) \<le> 864"
  then show "\<forall>q\<in>set h'. length (snd q) \<le> 864"
    using updateHistoricalData_capped[OF r] by (simp add: MAX_HISTORY_POINTS_def)
next
  fix h' c k xs
  assume r: "updateHistoricalData clk h ts = Inr (h', c)"
    and a: "map_of h k = Some xs \<and> 864 < length xs \<and> k \<in> test_id ` set ts"
  then have len: "MAX_HISTORY_POINTS \<le> length xs" by (simp add: MAX_HISTORY_POINTS_def)
  obtain h1 c1 where s: "forEach_tests clk ts (h, False) = Inr (h1, c1)"
    and h': "h' = filter (\<lambda>q. fst q \<in> test_id ` set ts) h1"
    using r by (rule updateHistoricalData_Inr)
  obtain ys where ys: "map_of h1 k = Some ys" "length ys = length xs"
    using forEach_tests_length[OF s, of k xs] a len by auto
  have res: "map_of h' k = Some ys" using a ys(1) by (simp add: h' map_of_filter_key)
  have "\<forall>i. distinct (map test_id ts) \<and> i < length ts \<and> test_id (ts ! i) = k
          \<longrightarrow> ys = (if differs xs (newPoint (clk i) (ts ! i))
                    then tl xs @ [newPoint (clk i) (ts ! i)] else xs)"
  proof (intro allI impI)
    fix i
    assume b: "distinct (map test_id ts) \<and> i < length ts \<and> test_id (ts ! i) = k"
    have "map_of h' (test_id (ts ! i))
            = Some (seq_step (clk i) (ts ! i) (map_of h (test_id (ts ! i))))"
      using b by (intro updateHistoricalData_nth[OF r]) auto
    then have "ys = seq_step (clk i) (ts ! i) (Some xs)" using res a b by simp
    moreover have "xs \<noteq> []" using a by auto
    ultimately show "ys = (if differs xs (newPoint (clk i) (ts ! i))
                    then tl xs @ [newPoint (clk i) (ts ! i)] else xs)"
      using len by (simp add: seq_step_def push_capped_def Let_def)
  qed
  then show "\<exists>ys. map_of h' k = Some ys \<and> length ys = length xs \<and> 864 < length ys
                \<and> (\<forall>i. distinct (map test_id ts) \<and> i < length ts \<and> test_id (ts ! i) = k
                      \<longrightarrow> ys = (if differs xs (newPoint (clk i) (ts ! i))
                                then tl xs @ [newPoint (clk i) (ts ! i)] else xs))"
    using res ys(2) a by auto
qed

theorem cap_kept_not_established_witness:
  "map_of [(''a'', replicate 865 \<lparr>p_time = 0, p_wml = 0, p_llr = None\<rparr>)] ''a''
     = Some (replicate 865 \<lparr>p_time = 0, p_wml = 0, p_llr = None\<rparr>) \<and>
   864 < length (replicate 865 \<lparr>p_time = 0, p_wml = 0, p_llr = None\<rparr>) \<and>
   (case updateHistoricalData (\<lambda>k. 5000)
           [(''a'', replicate 865 \<lparr>p_time = 0, p_wml = 0, p_llr = None\<rparr>)]
           [\<lparr>test_id = ''a'', username = ''u'', branch = ''b'', llr = None, wml = 1,
             wins = 1, losses = 0, draws = 0, totalGames = 1, workers = 1,
             sprtElo0 = None\<rparr>] of
      Inl e \<Rightarrow> None
    | Inr r \<Rightarrow> map_of (fst r) ''a'')
     = Some (replicate 864 \<lparr>p_time = 0, p_wml = 0, p_llr = None\<rparr>
             @ [\<lparr>p_time = 5, p_wml = 1, p_llr = None\<rparr>]) \<and>
   list_all (\<lambda>q. length (snd q) \<le> 864)
     [(''b'', [\<lparr>p_time = 0, p_wml = 0, p_llr = None\<rparr>])] \<and>
   (case updateHistoricalData (\<lambda>k. 5000)
           [(''b'', [\<lparr>p_time = 0, p_wml = 0, p_llr = None\<rparr>])]
           [\<lparr>test_id = ''a'', username = ''u'', branch = ''b'', llr = None, wml = 1,
             wins = 1, losses = 0, draws = 0, totalGames = 1, workers = 1,
             sprtElo0 = None\<rparr>] of
      Inl e \<Rightarrow> False
    | Inr r \<Rightarrow> list_all (\<lambda>q. length (snd q) \<le> 864) (fst r))"
proof -
  let ?p = "\<lparr>p_time = 0, p_wml = 0, p_llr = None\<rparr>"
  let ?h = "[(''a'', replicate 865 ?p)]"
  let ?g = "[(''b'', [?p])]"
  let ?t = "\<lparr>test_id = ''a'', username = ''u'', branch = ''b'', llr = None, wml = 1,
             wins = 1, losses = 0, draws = 0, totalGames = 1, workers = 1, sprtElo0 = None\<rparr>"
  note inst = cap_kept_not_established[of "\<lambda>k. 5000" ?h "[?t]"]
  have "\<forall>t\<in>set [?t]. test_id t \<in> set inherited_names \<longrightarrow> test_id t \<in> keys ?h"
    by (simp add: keys_def)
  then obtain h' c where r: "updateHistoricalData (\<lambda>k. 5000) ?h [?t] = Inr (h', c)"
    using inst by fastforce
  have d: "differs (replicate 865 ?p) (newPoint 5000 ?t)"
    by (simp add: differs_def newPoint_def)
  have pre: "map_of ?h ''a'' = Some (replicate 865 ?p) \<and> 864 < length (replicate 865 ?p)
      \<and> ''a'' \<in> test_id ` set [?t]" by simp
  obtain ys where ys: "map_of h' ''a'' = Some ys"
    "\<forall>i. distinct (map test_id [?t]) \<and> i < length [?t] \<and> test_id ([?t] ! i) = ''a''
        \<longrightarrow> ys = (if differs (replicate 865 ?p) (newPoint ((\<lambda>k. 5000) i) ([?t] ! i))
                  then tl (replicate 865 ?p) @ [newPoint ((\<lambda>k. 5000) i) ([?t] ! i)]
                  else replicate 865 ?p)"
    using inst r pre by blast
  have "ys = tl (replicate 865 ?p) @ [newPoint 5000 ?t]"
    using ys(2)[rule_format, of 0] d by simp
  then have 1: "map_of h' ''a'' = Some (replicate 864 ?p @ [\<lparr>p_time = 5, p_wml = 1, p_llr = None\<rparr>])"
    using ys(1) by (simp add: newPoint_def)
  note inst2 = cap_kept_not_established[of "\<lambda>k. 5000" ?g "[?t]"]
  have "\<forall>t\<in>set [?t]. test_id t \<in> set inherited_names \<longrightarrow> test_id t \<in> keys ?g"
    by (simp add: keys_def inherited_names_def)
  then obtain g' c' where r2: "updateHistoricalData (\<lambda>k. 5000) ?g [?t] = Inr (g', c')"
    using inst2 by fastforce
  have c: "\<forall>q\<in>set ?g. length (snd q) \<le> 864" by simp
  have 2: "\<forall>q\<in>set g'. length (snd q) \<le> 864" using inst2 r2 c by blast
  show ?thesis using 1 2 r r2 by (simp add: list_all_iff)
qed


section \<open>The change gate\<close>

lemma updateHistoricalData_gate:
  assumes "updateHistoricalData clk h ts = Inr (h', c)"
      and "distinct (map test_id ts)" "i < length ts"
  shows "map_of h' (test_id (ts ! i)) =
           Some (let testHistory = (case map_of h (test_id (ts ! i)) of None \<Rightarrow> [] | Some ps \<Rightarrow> ps)
                 in if differs testHistory (newPoint (clk i) (ts ! i))
                    then push_capped testHistory (newPoint (clk i) (ts ! i))
                    else testHistory)"
  using updateHistoricalData_nth[OF assms] by (simp add: seq_step_def)

lemma num_strict_eq_iff: "num_strict_eq a b \<longleftrightarrow> a = b \<and> a \<noteq> NaN"
  by (cases a; cases b) auto

lemma strict_neq_refl: "a \<noteq> Some NaN \<Longrightarrow> \<not> strict_neq a a"
  by (cases a) (auto simp: num_strict_eq_iff)

lemma not_strict_neq_eq: "\<not> strict_neq a b \<Longrightarrow> a = b"
  by (cases a; cases b) (auto simp: num_strict_eq_iff)

lemma last_push_capped: "last (push_capped xs np) = np"
  by (cases xs) (auto simp: push_capped_def Let_def MAX_HISTORY_POINTS_def)

lemma push_capped_nonempty: "push_capped xs np \<noteq> []"
  by (cases xs) (auto simp: push_capped_def Let_def MAX_HISTORY_POINTS_def)

lemma seq_step_last:
  assumes "llr t \<noteq> Some NaN"
  shows "seq_step now t entry \<noteq> [] \<and> p_wml (last (seq_step now t entry)) = wml t
         \<and> p_llr (last (seq_step now t entry)) = llr t"
proof (cases "differs (case entry of None \<Rightarrow> [] | Some ps \<Rightarrow> ps) (newPoint now t)")
  case True
  then show ?thesis
    by (simp add: seq_step_def last_push_capped push_capped_nonempty newPoint_def)
next
  case False
  then show ?thesis
    using not_strict_neq_eq[of "p_llr (last (case entry of None \<Rightarrow> [] | Some ps \<Rightarrow> ps))" "llr t"]
    by (auto simp: seq_step_def differs_def newPoint_def)
qed

lemma seq_step_unchanged:
  assumes "xs \<noteq> []" "p_wml (last xs) = wml t" "p_llr (last xs) = llr t" "llr t \<noteq> Some NaN"
  shows "seq_step now t (Some xs) = xs"
  using assms by (simp add: seq_step_def differs_def newPoint_def strict_neq_refl)

lemma map_of_json_store:
  "map_of (json_store h) k = map_option (map json_point) (map_of h k)"
  by (induction h) (auto simp: json_store_def)

lemma json_num_finite: "v = None \<or> (\<exists>r. v = Some (Fin r)) \<Longrightarrow> json_num v = v"
  by auto

lemma second_cycle_appends_nothing:
  assumes "updateHistoricalData clk1 h ts1 = Inr (h1, c1)"
      and "updateHistoricalData clk2 (json_store h1) ts2 = Inr (h2, c2)"
      and "distinct (map test_id ts1)" "i < length ts1"
      and "distinct (map test_id ts2)" "j < length ts2"
      and "test_id (ts2 ! j) = test_id (ts1 ! i)"
      and "wml (ts2 ! j) = wml (ts1 ! i)" "llr (ts2 ! j) = llr (ts1 ! i)"
      and "llr (ts1 ! i) = None \<or> (\<exists>r. llr (ts1 ! i) = Some (Fin r))"
  shows "map_of h2 (test_id (ts1 ! i)) = map_of (json_store h1) (test_id (ts1 ! i))"
proof -
  let ?k = "test_id (ts1 ! i)"
  let ?ys = "seq_step (clk1 i) (ts1 ! i) (map_of h ?k)"
  have nn: "llr (ts1 ! i) \<noteq> Some NaN" using assms(10) by auto
  have h1: "map_of h1 ?k = Some ?ys"
    using assms(1,3,4) by (rule updateHistoricalData_nth)
  have ys: "?ys \<noteq> []" "p_wml (last ?ys) = wml (ts1 ! i)" "p_llr (last ?ys) = llr (ts1 ! i)"
    using seq_step_last[OF nn] by auto
  let ?zs = "map json_point ?ys"
  have stored: "map_of (json_store h1) ?k = Some ?zs"
    using h1 by (simp add: map_of_json_store)
  have zs: "?zs \<noteq> []" "p_wml (last ?zs) = wml (ts2 ! j)" "p_llr (last ?zs) = llr (ts2 ! j)"
    using ys assms(8,9) json_num_finite[OF assms(10)]
    by (simp_all add: last_map json_point_def)
  have "map_of h2 (test_id (ts2 ! j))
          = Some (seq_step (clk2 j) (ts2 ! j) (map_of (json_store h1) (test_id (ts2 ! j))))"
    using assms(2,5,6) by (rule updateHistoricalData_nth)
  moreover have "seq_step (clk2 j) (ts2 ! j) (Some ?zs) = ?zs"
    using zs nn assms(9) by (intro seq_step_unchanged) simp_all
  ultimately show ?thesis using stored assms(7) by simp
qed

text \<open>
  C2. Two runs in a row get the same answer from the API, with one test whose
  \<open>args.sprt.llr\<close> is the string \<open>abc\<close>, so that both runs compute the same
  \<open>wml = 0\<close> and the same \<open>llr\<close> (\<open>NaN\<close>) for it. The first run starts without a
  history file and writes one point (its \<open>llr\<close> is \<open>null\<close> in the file); the second run
  reads that file and writes a second point for the test.
\<close>

theorem nan_llr_appended_every_cycle:
  "processRawData
     [(''a'', Some \<lparr>raw_id = ''a'',
                    raw_args = Some \<lparr>args_sprt = Some \<lparr>sprt_llr = JString ''abc'',
                                                        sprt_elo0 = JUndefined\<rparr>,
                                     args_username = Some ''u'', args_new_tag = Some ''x''\<rparr>,
                    raw_results = None, raw_workers = JNumber (Fin 1)\<rparr>)]
     = Inr [\<lparr>test_id = ''a'', username = ''u'', branch = ''x'', llr = Some NaN, wml = 0,
             wins = 0, losses = 0, draws = 0, totalGames = 0, workers = 1,
             sprtElo0 = None\<rparr>] \<and>
   written (main \<lparr>history_file = Inl ENOENT,
                   api = Inr \<lparr>resp_ok = True, resp_status = 200, resp_json = Inr
                     [(''a'', Some \<lparr>raw_id = ''a'',
                         raw_args = Some \<lparr>args_sprt = Some \<lparr>sprt_llr = JString ''abc'',
                                                             sprt_elo0 = JUndefined\<rparr>,
                                          args_username = Some ''u'', args_new_tag = Some ''x''\<rparr>,
                         raw_results = None, raw_workers = JNumber (Fin 1)\<rparr>)]\<rparr>,
                   write_fails = (\<lambda>p. False), date_now = (\<lambda>k. 1000)\<rparr>)
     = [(LATEST_DATA_PATH, LatestData
          [\<lparr>test_id = ''a'', username = ''u'', branch = ''x'', llr = None, wml = 0, wins = 0,
            losses = 0, draws = 0, totalGames = 0, workers = 1, sprtElo0 = None\<rparr>]),
        (HISTORY_DATA_PATH, HistoryData
          [(''a'', [\<lparr>p_time = 1, p_wml = 0, p_llr = None\<rparr>])])] \<and>
   written (main \<lparr>history_file = Inr [(''a'', [\<lparr>p_time = 1, p_wml = 0, p_llr = None\<rparr>])],
                   api = Inr \<lparr>resp_ok = True, resp_status = 200, resp_json = Inr
                     [(''a'', Some \<lparr>raw_id = ''a'',
                         raw_args = Some \<lparr>args_sprt = Some \<lparr>sprt_llr = JString ''abc'',
                                                             sprt_elo0 = JUndefined\<rparr>,
                                          args_username = Some ''u'', args_new_tag = Some ''x''\<rparr>,
                         raw_results = None, raw_workers = JNumber (Fin 1)\<rparr>)]\<rparr>,
                   write_fails = (\<lambda>p. False), date_now = (\<lambda>k. 301000)\<rparr>)
     = [(LATEST_DATA_PATH, LatestData
          [\<lparr>test_id = ''a'', username = ''u'', branch = ''x'', llr = None, wml = 0, wins = 0,
            losses = 0, draws = 0, totalGames = 0, workers = 1, sprtElo0 = None\<rparr>]),
        (HISTORY_DATA_PATH, HistoryData
          [(''a'', [\<lparr>p_time = 1, p_wml = 0, p_llr = None\<rparr>,
                    \<lparr>p_time = 301, p_wml = 0, p_llr = None\<rparr>])])]"
  by code_simp

section \<open>The sort\<close>

lemma set_sort_insert: "set (sort_insert cmp x ys) = insert x (set ys)"
  by (induction ys) auto

lemma set_js_sort: "set (js_sort cmp xs) = set xs"
  unfolding js_sort_def by (induction xs) (auto simp: set_sort_insert)

lemma js_ge_trans:
  "js_ge a b \<Longrightarrow> js_ge b c \<Longrightarrow> js_ge a c"
  by (cases a; cases b; cases c) auto

lemma llr_in_order_trans:
  "llr_in_order a b \<Longrightarrow> llr_in_order b c \<Longrightarrow> llr_in_order a c"
  by (cases a; cases b; cases c) (auto intro: js_ge_trans)

lemma positive_minus:
  "a \<noteq> NaN \<Longrightarrow> b \<noteq> NaN \<Longrightarrow> positive (js_minus b a) \<Longrightarrow> js_ge b a"
  by (cases a; cases b) auto

lemma not_positive_minus:
  "a \<noteq> NaN \<Longrightarrow> b \<noteq> NaN \<Longrightarrow> \<not> positive (js_minus b a) \<Longrightarrow> js_ge a b"
  by (cases a; cases b) auto

lemma compareFn_positive:
  "llr x \<noteq> Some NaN \<Longrightarrow> llr y \<noteq> Some NaN \<Longrightarrow> positive (compareFn x y) \<Longrightarrow>
   llr_in_order (llr y) (llr x)"
  by (cases "llr x"; cases "llr y") (auto simp: compareFn_def positive_minus)

lemma compareFn_not_positive:
  "llr x \<noteq> Some NaN \<Longrightarrow> llr y \<noteq> Some NaN \<Longrightarrow> \<not> positive (compareFn x y) \<Longrightarrow>
   llr_in_order (llr x) (llr y)"
  by (cases "llr x"; cases "llr y") (auto simp: compareFn_def not_positive_minus)

lemma sort_insert_sorted:
  assumes "llr x \<noteq> Some NaN" "\<forall>y\<in>set ys. llr y \<noteq> Some NaN" "sorted_by_llr ys"
  shows "sorted_by_llr (sort_insert compareFn x ys)"
  using assms
proof (induction ys)
  case Nil
  then show ?case by (simp add: sorted_by_llr_def)
next
  case (Cons y ys)
  show ?case
  proof (cases "positive (compareFn x y)")
    case True
    have yx: "llr_in_order (llr y) (llr x)"
      using compareFn_positive[OF _ _ True] Cons.prems by simp
    have "sorted_by_llr (sort_insert compareFn x ys)"
      using Cons by (simp add: sorted_by_llr_def)
    then show ?thesis
      using True yx Cons.prems(3) by (auto simp: sorted_by_llr_def set_sort_insert)
  next
    case False
    have xy: "llr_in_order (llr x) (llr y)"
      using compareFn_not_positive[OF _ _ False] Cons.prems by simp
    have "\<forall>z\<in>set ys. llr_in_order (llr x) (llr z)"
      using xy Cons.prems(3) by (auto simp: sorted_by_llr_def intro: llr_in_order_trans)
    then show ?thesis
      using False xy Cons.prems(3) by (simp add: sorted_by_llr_def)
  qed
qed

lemma js_sort_sorted:
  "\<forall>t\<in>set ts. llr t \<noteq> Some NaN \<Longrightarrow> sorted_by_llr (js_sort compareFn ts)"
proof (induction ts)
  case Nil
  then show ?case by (simp add: js_sort_def sorted_by_llr_def)
next
  case (Cons t ts)
  have "sorted_by_llr (sort_insert compareFn t (js_sort compareFn ts))"
    using Cons by (intro sort_insert_sorted) (simp_all add: set_js_sort)
  then show ?case by (simp add: js_sort_def)
qed

lemma processRawData_sorted_without_NaN:
  assumes "processRawData rawData = Inr tests" "\<forall>t\<in>set tests. llr t \<noteq> Some NaN"
  shows "sorted_by_llr tests"
proof -
  obtain ps where ps: "process_loop rawData [] = Inr ps" "tests = js_sort compareFn ps"
    using assms(1) by (auto simp: processRawData_def split: sum.splits)
  have "\<forall>t\<in>set ps. llr t \<noteq> Some NaN" using assms(2) ps(2) by (simp add: set_js_sort)
  then show ?thesis using ps(2) js_sort_sorted by simp
qed

text \<open>
  C4. For an answer of the API with two tests, the first with the string \<open>abc\<close> in
  \<open>args.sprt.llr\<close> and the second with the number \<open>1\<close>, \<open>processRawData\<close> returns
  the two tests with \<open>llr\<close> \<open>NaN\<close> and \<open>1\<close>, in this order. Neither this list nor the
  list in the other order is in the order of the snapshot list: both \<open>llr\<close> are numbers,
  and neither \<open>NaN >= 1\<close> nor \<open>1 >= NaN\<close> holds. In the snapshot file, where \<open>NaN\<close> is
  written as \<open>null\<close>, a \<open>null\<close> stands before a number.
\<close>

theorem nonnumeric_llr_breaks_order:
  "(case processRawData
          [(''a'', Some \<lparr>raw_id = ''a'',
                         raw_args = Some \<lparr>args_sprt = Some \<lparr>sprt_llr = JString ''abc'',
                                                             sprt_elo0 = JUndefined\<rparr>,
                                          args_username = Some ''u'', args_new_tag = Some ''x''\<rparr>,
                         raw_results = None, raw_workers = JNumber (Fin 1)\<rparr>),
           (''b'', Some \<lparr>raw_id = ''b'',
                         raw_args = Some \<lparr>args_sprt = Some \<lparr>sprt_llr = JNumber (Fin 1),
                                                             sprt_elo0 = JUndefined\<rparr>,
                                          args_username = Some ''u'', args_new_tag = Some ''y''\<rparr>,
                         raw_results = None, raw_workers = JNumber (Fin 1)\<rparr>)] of
      Inl e \<Rightarrow> False
    | Inr tests \<Rightarrow>
        map test_id tests = [''a'', ''b''] \<and> map llr tests = [Some NaN, Some (Fin 1)]
          \<and> \<not> sorted_by_llr tests \<and> \<not> sorted_by_llr (rev tests)
          \<and> map llr (map json_summary tests) = [None, Some (Fin 1)]
          \<and> \<not> sorted_by_llr (map json_summary tests))"
  by code_simp

section \<open>Ids that name an inherited property\<close>

text \<open>
  C3. The history object has the one entry \<open>old\<close>, and the list has one test, whose id is
  \<open>toString\<close>. The call of \<open>updateHistoricalData\<close> throws a \<open>TypeError\<close>: it returns no
  object, so that \<open>old\<close>, which is not in the list, is not deleted and \<open>toString\<close>, which
  is in the list, gains no entry. The run of the script with this history file and a test
  of this id in the answer of the API exits with code 1 and writes no file.
\<close>

theorem inherited_name_id_throws:
  "updateHistoricalData (\<lambda>k. 5000)
     [(''old'', [\<lparr>p_time = 1, p_wml = 2, p_llr = None\<rparr>])]
     [\<lparr>test_id = ''toString'', username = ''u'', branch = ''b'', llr = None, wml = 1,
       wins = 1, losses = 0, draws = 0, totalGames = 1, workers = 1, sprtElo0 = None\<rparr>]
     = Inl TypeError \<and>
   main \<lparr>history_file = Inr [(''old'', [\<lparr>p_time = 1, p_wml = 2, p_llr = None\<rparr>])],
         api = Inr \<lparr>resp_ok = True, resp_status = 200, resp_json = Inr
                 [(''toString'', Some \<lparr>raw_id = ''toString'',
                     raw_args = Some \<lparr>args_sprt = None, args_username = Some ''u'',
                                      args_new_tag = Some ''b''\<rparr>,
                     raw_results = Some \<lparr>results_wins = JNumber (Fin 1),
                                         results_losses = JNumber (Fin 0),
                                         results_draws = JNumber (Fin 0)\<rparr>,
                     raw_workers = JNumber (Fin 1)\<rparr>)]\<rparr>,
         write_fails = (\<lambda>p. False), date_now = (\<lambda>k. 5000)\<rparr>
     = \<lparr>exit_code = 1, written = []\<rparr>"
  by code_simp

section \<open>The run of the script\<close>

lemma fetch_fails_error: "fetch_fails w \<Longrightarrow> \<exists>e. fetchFishtestData (api w) = Inl e"
  by (auto simp: fetch_fails_def fetchFishtestData_def split: sum.splits)

text \<open>
  C7. When the fetch fails (\<open>fetch\<close> rejects, or the response is not ok), the run exits
  with code 1 and has written no file: neither the snapshot nor the history.
\<close>

theorem fetch_failure_is_fatal:
  "fetch_fails w \<Longrightarrow> exit_code (main w) = 1 \<and> written (main w) = []"
proof -
  assume "fetch_fails w"
  then obtain e where e: "fetchFishtestData (api w) = Inl e"
    using fetch_fails_error by blast
  show ?thesis
    by (cases "loadJson (history_file w) []") (simp_all add: main_def e failed_def)
qed

theorem fetch_failure_is_fatal_witness:
  "fetch_fails \<lparr>history_file = Inr [], api = Inr \<lparr>resp_ok = False, resp_status = 503, resp_json = Inl SyntaxError\<rparr>,
                write_fails = (\<lambda>p. False), date_now = (\<lambda>k. 0)\<rparr> \<and>
   exit_code (main \<lparr>history_file = Inr [], api = Inr \<lparr>resp_ok = False, resp_status = 503, resp_json = Inl SyntaxError\<rparr>,
                write_fails = (\<lambda>p. False), date_now = (\<lambda>k. 0)\<rparr>) = 1 \<and>
   written (main \<lparr>history_file = Inr [], api = Inr \<lparr>resp_ok = False, resp_status = 503, resp_json = Inl SyntaxError\<rparr>,
                write_fails = (\<lambda>p. False), date_now = (\<lambda>k. 0)\<rparr>) = []"
proof -
  let ?w = "\<lparr>history_file = Inr [], api = Inr \<lparr>resp_ok = False, resp_status = 503, resp_json = Inl SyntaxError\<rparr>,
                write_fails = (\<lambda>p. False), date_now = (\<lambda>k. 0)\<rparr>"
  have f: "fetch_fails ?w" by (simp add: fetch_fails_def)
  show ?thesis using f fetch_failure_is_fatal[OF f] by simp
qed



section \<open>The page\<close>

lemma scoreData_values:
  "scoreData ps =
     map (\<lambda>d. \<lparr>pt_x = round_double (real_of_int (p_time d) * 1000), pt_y = VUndefined\<rparr>) ps"
  by (simp add: scoreData_def property_def)

lemma llrData_values:
  "llrData ps =
     map (\<lambda>d. \<lparr>pt_x = round_double (real_of_int (p_time d) * 1000),
               pt_y = (case p_llr d of None \<Rightarrow> VNumber NaN | Some n \<Rightarrow> VNumber n)\<rparr>) ps"
  by (auto simp: llrData_def property_def split: option.splits)

text \<open>
  C5. The page has the history of test \<open>a\<close> with one point (\<open>time = 1\<close>,
  \<open>wml = 5\<close>, \<open>llr = 2\<close>) and no chart yet; the user selects the test. In the score
  series of the chart the point is at time \<open>1000\<close> and its value is \<open>undefined\<close>: the
  series reads the property \<open>score\<close>, which a history point does not have.
\<close>

theorem score_series_has_no_values:
  "map_option score_data (currentChart (handleBranchClick
      \<lparr>is_branch_link = True, dataset_testId = ''a'', dataset_branchName = ''x''\<rparr>
      \<lparr>allTestsData = [], historicalData = [(''a'', [\<lparr>p_time = 1, p_wml = 5, p_llr = Some (Fin 2)\<rparr>])],
       currentChart = None, currentTrackingTestId = None, currentTrackingBranchName = None,
       currentVisibleMetric = LLR, chartTitle = [], chartContainer_shown = False,
       testEndedMessage_shown = False, scrolled = 0, prevented = 0\<rparr>))
   = Some [\<lparr>pt_x = Fin 1000, pt_y = VUndefined\<rparr>]"
  by code_simp

text \<open>
  C8. A click on the branch link of the test that is tracked already leaves every
  variable of the page script and the chart as they are; it only scrolls to the chart
  (and prevents the default action of the link).
\<close>

theorem same_test_click_only_scrolls:
  assumes "is_branch_link ev" "currentTrackingTestId st = Some (dataset_testId ev)"
  shows "handleBranchClick ev st = st\<lparr>scrolled := scrolled st + 1, prevented := prevented st + 1\<rparr> \<and>
         currentTrackingTestId (handleBranchClick ev st) = currentTrackingTestId st \<and>
         currentTrackingBranchName (handleBranchClick ev st) = currentTrackingBranchName st \<and>
         currentVisibleMetric (handleBranchClick ev st) = currentVisibleMetric st \<and>
         currentChart (handleBranchClick ev st) = currentChart st"
  using assms by (simp add: handleBranchClick_def Let_def)

theorem same_test_click_only_scrolls_witness:
  "is_branch_link \<lparr>is_branch_link = True, dataset_testId = ''a'', dataset_branchName = ''x''\<rparr> \<and>
   currentTrackingTestId
     \<lparr>allTestsData = [], historicalData = [], currentChart = None,
      currentTrackingTestId = Some ''a'', currentTrackingBranchName = Some ''x'',
      currentVisibleMetric = Score, chartTitle = ''t'', chartContainer_shown = True,
      testEndedMessage_shown = True, scrolled = 0, prevented = 0\<rparr>
     = Some (dataset_testId
         \<lparr>is_branch_link = True, dataset_testId = ''a'', dataset_branchName = ''x''\<rparr>) \<and>
   handleBranchClick
     \<lparr>is_branch_link = True, dataset_testId = ''a'', dataset_branchName = ''x''\<rparr>
     \<lparr>allTestsData = [], historicalData = [], currentChart = None,
      currentTrackingTestId = Some ''a'', currentTrackingBranchName = Some ''x'',
      currentVisibleMetric = Score, chartTitle = ''t'', chartContainer_shown = True,
      testEndedMessage_shown = True, scrolled = 0, prevented = 0\<rparr>
   = \<lparr>allTestsData = [], historicalData = [], currentChart = None,
      currentTrackingTestId = Some ''a'', currentTrackingBranchName = Some ''x'',
      currentVisibleMetric = Score, chartTitle = ''t'', chartContainer_shown = True,
      testEndedMessage_shown = True, scrolled = 1, prevented = 1\<rparr>"
proof -
  let ?ev = "\<lparr>is_branch_link = True, dataset_testId = ''a'', dataset_branchName = ''x''\<rparr>"
  let ?st = "\<lparr>allTestsData = [], historicalData = [], currentChart = None,
      currentTrackingTestId = Some ''a'', currentTrackingBranchName = Some ''x'',
      currentVisibleMetric = Score, chartTitle = ''t'', chartContainer_shown = True,
      testEndedMessage_shown = True, scrolled = 0, prevented = 0\<rparr>"
  have a: "is_branch_link ?ev" by simp
  have b: "currentTrackingTestId ?st = Some (dataset_testId ?ev)" by simp
  show ?thesis using same_test_click_only_scrolls[OF a b] by simp
qed

end
